theory Spec2Isabelle
  imports Main
begin

unbundle bit_operations_syntax

section \<open>Failures\<close>

text \<open>
  The source signals failure by throwing. The throw sites that are embedded here are
  \<^item> \<^verbatim>\<open>std::invalid_argument("Num is out of range")\<close> in the \<^verbatim>\<open>FieldElement\<close>
    constructor: \<open>OutOfRange\<close>;
  \<^item> \<^verbatim>\<open>std::runtime_error("Cannot ... two numbers in different fields")\<close> in the binary
    field operators: \<open>IncompatibleField\<close>;
  \<^item> \<^verbatim>\<open>std::runtime_error("Error: Cannot convert from base ...")\<close> in the iterator
    constructor of \<^verbatim>\<open>integer\<close> and \<^verbatim>\<open>std::domain_error("Error: modulus by 0")\<close> in the
    three-argument \<^verbatim>\<open>pow\<close>: \<open>DomainError\<close>;
  \<^item> the failure of \<^verbatim>\<open>integer::operator%\<close> on a zero divisor: \<open>DivisionByZero\<close>.
  A function that can throw returns \<open>error + 'a\<close>, with \<open>Inl\<close> for the failure.
\<close>

datatype error = OutOfRange | IncompatibleField | DivisionByZero | DomainError

section \<open>The integer engine\<close>

text \<open>
  Modelled from the spec: \<^verbatim>\<open>integer.h\<close> only declares the member operators of class
  \<^verbatim>\<open>integer\<close>; their bodies (\<^verbatim>\<open>integer.cpp\<close>) are not part of the sources. An
  \<^verbatim>\<open>integer\<close> is a sign and a trimmed magnitude, zero always positive, so a value of the
  class is exactly one mathematical integer and is modelled as an \<open>int\<close>. Following the
  spec, \<^verbatim>\<open>+\<close>, \<^verbatim>\<open>-\<close> and \<^verbatim>\<open>*\<close> are exact (they are written \<open>+\<close>, \<open>-\<close>, \<open>*\<close> on
  \<open>int\<close> below) and the comparisons \<^verbatim>\<open>==\<close>, \<^verbatim>\<open>!=\<close>, \<^verbatim>\<open><\<close>, \<^verbatim>\<open>>=\<close> are those of the
  values (\<open>=\<close>, \<open>\<noteq>\<close>, \<open><\<close>, \<open>\<ge>\<close> on \<open>int\<close>). The remaining operators that the embedded
  code calls are defined one by one.
\<close>

text \<open>
  Modelled from the spec: \<^verbatim>\<open>integer::operator bool\<close> (body missing). A value is true
  when it is not zero.
\<close>

definition integer_bool :: "int \<Rightarrow> bool" where
  "integer_bool x = (x \<noteq> 0)"

text \<open>
  Modelled from the spec: \<^verbatim>\<open>integer::operator%\<close> (body missing), a wrapper of
  \<^verbatim>\<open>divmod\<close> that keeps the remainder. It fails with \<open>DivisionByZero\<close> when the
  magnitude of the divisor is zero; the magnitude of the remainder is that of the division
  of the magnitudes and its sign follows the dividend (truncating division).
\<close>

definition integer_mod :: "int \<Rightarrow> int \<Rightarrow> error + int" where
  "integer_mod lhs rhs =
     (if rhs = 0 then Inl DivisionByZero else Inr (sgn lhs * (\<bar>lhs\<bar> mod \<bar>rhs\<bar>)))"

text \<open>The remainder that \<open>integer_mod\<close> returns on a divisor that is not zero.\<close>

definition trunc_rem :: "int \<Rightarrow> int \<Rightarrow> int" where
  "trunc_rem x m = sgn x * (\<bar>x\<bar> mod \<bar>m\<bar>)"

text \<open>
  Modelled from the spec: \<^verbatim>\<open>integer::operator&\<close> and \<^verbatim>\<open>integer::operator|\<close> (bodies
  missing) act on the two's-complement bit patterns of their operands.
\<close>

definition integer_and :: "int \<Rightarrow> int \<Rightarrow> int" where
  "integer_and lhs rhs = lhs AND rhs"

definition integer_or :: "int \<Rightarrow> int \<Rightarrow> int" where
  "integer_or lhs rhs = lhs OR rhs"

text \<open>
  Modelled from the spec: \<^verbatim>\<open>integer::operator>>=\<close> (body missing). A right shift by
  \<open>k\<close> floor-divides the magnitude by \<open>2 ^ k\<close> and keeps the sign. The embedded code only
  shifts by one.
\<close>

definition integer_shr :: "int \<Rightarrow> nat \<Rightarrow> int" where
  "integer_shr x k = sgn x * (\<bar>x\<bar> div 2 ^ k)"

subsection \<open>The iterator constructor\<close>

text \<open>
  \<^verbatim>\<open>integer(Iterator start, const Iterator & end, const integer & base)\<close> starts from the
  default-constructed value 0 and runs \<^verbatim>\<open>*this = (*this * base) | *start\<close> over the
  sequence. The sequence is the list of the values the iterator yields.
\<close>

fun integer_iter_loop :: "int \<Rightarrow> int list \<Rightarrow> int \<Rightarrow> int" where
  "integer_iter_loop this [] base = this"
| "integer_iter_loop this (start # rest) base =
     integer_iter_loop (integer_or (this * base) start) rest base"

definition integer_iter :: "int list \<Rightarrow> int \<Rightarrow> error + int" where
  "integer_iter digits base =
     (if base < 2 then Inl DomainError else Inr (integer_iter_loop 0 digits base))"

text \<open>
  The value the specification gives for the same constructor: the fold of
  \<open>value = value * base + digit\<close> over the digit sequence, starting from 0.
\<close>

fun spec_digit_fold :: "int \<Rightarrow> int list \<Rightarrow> int \<Rightarrow> int" where
  "spec_digit_fold v [] base = v"
| "spec_digit_fold v (d # ds) base = spec_digit_fold (v * base + d) ds base"

subsection \<open>Exponentiation\<close>

text \<open>
  The loop of \<^verbatim>\<open>pow(integer value, Z exp)\<close>, with \<open>Z\<close> an \<^verbatim>\<open>integer\<close> as in the calls of
  \<^verbatim>\<open>FieldElement.cpp\<close>:
  \<^verbatim>\<open>while (exp){ if (exp & one){ result *= value; } exp >>= one; value *= value; }\<close>
\<close>

function pow_loop :: "int \<Rightarrow> int \<Rightarrow> int \<Rightarrow> int" where
  "pow_loop result v exp =
     (if integer_bool exp
      then pow_loop (if integer_bool (integer_and exp 1) then result * v else result)
             (v * v) (integer_shr exp 1)
      else result)"
  by pat_completeness auto
termination
proof (relation "measure (\<lambda>(result, v, exp). nat \<bar>exp\<bar>)")
  show "wf (measure (\<lambda>(result, v, exp). nat \<bar>exp\<bar>))"
    by simp
next
  fix result v exp :: int
  assume "integer_bool exp"
  then have "exp \<noteq> 0"
    by (simp add: integer_bool_def)
  then have "\<bar>exp\<bar> div 2 < \<bar>exp\<bar>"
    by linarith
  moreover have "\<bar>integer_shr exp 1\<bar> = \<bar>exp\<bar> div 2"
    using \<open>exp \<noteq> 0\<close> by (simp add: integer_shr_def abs_mult)
  ultimately show "((if integer_bool (integer_and exp 1) then result * v else result,
      v * v, integer_shr exp 1), (result, v, exp)) \<in> measure (\<lambda>(result, v, exp). nat \<bar>exp\<bar>)"
    by simp
qed

declare pow_loop.simps [simp del]

definition pow :: "int \<Rightarrow> int \<Rightarrow> int" where
  "pow v exp = (if exp < 0 then 0 else pow_loop 1 v exp)"

text \<open>
  The loop of \<^verbatim>\<open>pow(integer base, Z_e exponent, const Z_m modulus)\<close>:
  \<^verbatim>\<open>while (exp){ if (exp & one){ result = (result * base) % mod; }
               exp >>= one; base = (base * base) % mod; }\<close>
\<close>

function pow_mod_loop :: "int \<Rightarrow> int \<Rightarrow> int \<Rightarrow> int \<Rightarrow> error + int" where
  "pow_mod_loop result base exp m =
     (if integer_bool exp
      then (case (if integer_bool (integer_and exp 1) then integer_mod (result * base) m
                  else Inr result) of
              Inl e \<Rightarrow> Inl e
            | Inr result' \<Rightarrow>
                (case integer_mod (base * base) m of
                   Inl e \<Rightarrow> Inl e
                 | Inr base' \<Rightarrow> pow_mod_loop result' base' (integer_shr exp 1) m))
      else Inr result)"
  by pat_completeness auto
termination
proof (relation "measure (\<lambda>(result, base, exp, m). nat \<bar>exp\<bar>)")
  show "wf (measure (\<lambda>(result, base, exp, m). nat \<bar>exp\<bar>))"
    by simp
next
  fix result base exp m result' base' :: int
  assume "integer_bool exp"
  then have "exp \<noteq> 0"
    by (simp add: integer_bool_def)
  then have "\<bar>exp\<bar> div 2 < \<bar>exp\<bar>"
    by linarith
  moreover have "\<bar>integer_shr exp 1\<bar> = \<bar>exp\<bar> div 2"
    using \<open>exp \<noteq> 0\<close> by (simp add: integer_shr_def abs_mult)
  ultimately show "((result', base', integer_shr exp 1, m), (result, base, exp, m))
      \<in> measure (\<lambda>(result, base, exp, m). nat \<bar>exp\<bar>)"
    by simp
qed

declare pow_mod_loop.simps [simp del]

definition pow_mod :: "int \<Rightarrow> int \<Rightarrow> int \<Rightarrow> error + int" where
  "pow_mod base exponent modulus =
     (if \<not> integer_bool modulus then Inl DomainError
      else if exponent < 0 then Inr 0
      else pow_mod_loop 1 base exponent modulus)"

section \<open>Field elements\<close>

text \<open>
  Class \<^verbatim>\<open>FieldElement\<close> of \<^verbatim>\<open>FieldElement.cpp\<close>: two private \<^verbatim>\<open>integer\<close> members,
  set only by the constructor.
\<close>

record FieldElement =
  num :: int
  prime :: int

text \<open>
  The constructor throws when \<^verbatim>\<open>num >= prime || num < 0\<close>. Every operator ends in
  \<^verbatim>\<open>return {integer(...), this->prime}\<close>, which calls the constructor again, so its range
  check runs on every result. The operators \<^verbatim>\<open>+\<close>, \<^verbatim>\<open>-\<close>, \<^verbatim>\<open>*\<close>, \<^verbatim>\<open>/\<close> and \<^verbatim>\<open>==\<close> are
  named \<open>operator_plus\<close>, \<open>operator_minus\<close>, \<open>operator_times\<close>, \<open>operator_div\<close> and
  \<open>operator_eq\<close>; the member function \<^verbatim>\<open>power\<close> is \<open>power_fe\<close>.
\<close>

definition FieldElement :: "int \<Rightarrow> int \<Rightarrow> error + FieldElement" where
  "FieldElement n p =
     (if n \<ge> p \<or> n < 0 then Inl OutOfRange else Inr \<lparr>num = n, prime = p\<rparr>)"

definition operator_plus :: "FieldElement \<Rightarrow> FieldElement \<Rightarrow> error + FieldElement" where
  "operator_plus this other =
     (if prime this \<noteq> prime other then Inl IncompatibleField
      else case integer_mod (num this + num other) (prime this) of
             Inl e \<Rightarrow> Inl e
           | Inr calculatedAdd \<Rightarrow> FieldElement calculatedAdd (prime this))"

definition operator_minus :: "FieldElement \<Rightarrow> FieldElement \<Rightarrow> error + FieldElement" where
  "operator_minus this other =
     (if prime this \<noteq> prime other then Inl IncompatibleField
      else case integer_mod (num this - num other) (prime this) of
             Inl e \<Rightarrow> Inl e
           | Inr calculatedAdd \<Rightarrow> FieldElement calculatedAdd (prime this))"

definition operator_times :: "FieldElement \<Rightarrow> FieldElement \<Rightarrow> error + FieldElement" where
  "operator_times this other =
     (if prime this \<noteq> prime other then Inl IncompatibleField
      else case integer_mod (num this * num other) (prime this) of
             Inl e \<Rightarrow> Inl e
           | Inr calculatedAdd \<Rightarrow> FieldElement calculatedAdd (prime this))"

definition operator_times_integer :: "FieldElement \<Rightarrow> int \<Rightarrow> error + FieldElement" where
  "operator_times_integer this other =
     (case integer_mod (num this * other) (prime this) of
        Inl e \<Rightarrow> Inl e
      | Inr calculatedAdd \<Rightarrow> FieldElement calculatedAdd (prime this))"

definition operator_div :: "FieldElement \<Rightarrow> FieldElement \<Rightarrow> error + FieldElement" where
  "operator_div this other =
     (if prime this \<noteq> prime other then Inl IncompatibleField
      else case integer_mod (pow (num other) (prime this - 2)) (prime this) of
             Inl e \<Rightarrow> Inl e
           | Inr other_inverse \<Rightarrow>
               (case integer_mod (num this * other_inverse) (prime this) of
                  Inl e \<Rightarrow> Inl e
                | Inr calculatedDiv \<Rightarrow> FieldElement calculatedDiv (prime this)))"

definition power_fe :: "FieldElement \<Rightarrow> int \<Rightarrow> error + FieldElement" where
  "power_fe this pwr =
     (case integer_mod pwr (prime this - 1) of
        Inl e \<Rightarrow> Inl e
      | Inr n \<Rightarrow>
          (case integer_mod (pow (num this) n) (prime this) of
             Inl e \<Rightarrow> Inl e
           | Inr calculatedPow \<Rightarrow> FieldElement calculatedPow (prime this)))"

definition operator_eq :: "FieldElement \<Rightarrow> FieldElement \<Rightarrow> bool" where
  "operator_eq lhs rhs = (num lhs = num rhs \<and> num lhs = num rhs)"

definition operator_neq :: "FieldElement \<Rightarrow> FieldElement \<Rightarrow> bool" where
  "operator_neq lhs rhs = (\<not> operator_eq lhs rhs)"

text \<open>Primality of a modulus, as a check over the candidate divisors.\<close>

definition is_prime :: "int \<Rightarrow> bool" where
  "is_prime p = (1 < p \<and> (\<forall>d \<in> {2..<p}. \<not> d dvd p))"

section \<open>Facts about the integer engine\<close>

lemma integer_mod_nonneg: "0 \<le> x \<Longrightarrow> 0 < p \<Longrightarrow> integer_mod x p = Inr (x mod p)"
  by (cases "x = 0") (simp_all add: integer_mod_def)

lemma bit0_and_one: "integer_bool (integer_and e 1) = odd e"
  by (simp add: integer_bool_def integer_and_def and_one_eq mod_2_eq_odd)

lemma shr_one_nonneg: "0 \<le> e \<Longrightarrow> integer_shr e 1 = e div 2"
  by (cases "e = 0") (simp_all add: integer_shr_def)

lemma nat_halves:
  assumes "0 < (e::int)"
  shows "nat e = 2 * nat (e div 2) + (if odd e then 1 else 0)"
proof -
  have k: "0 \<le> e div 2" using assms by simp
  have "e = 2 * (e div 2) + (if odd e then 1 else 0)"
    by presburger
  then have "nat e = nat (2 * (e div 2) + (if odd e then 1 else 0))"
    by simp
  also have "\<dots> = 2 * nat (e div 2) + (if odd e then 1 else 0)"
    using k by (simp add: nat_add_distrib nat_mult_distrib)
  finally show ?thesis .
qed

lemma power_halves:
  assumes "0 < (e::int)"
  shows "(v::int) ^ nat e = (if odd e then v else 1) * (v * v) ^ nat (e div 2)"
proof -
  have "v ^ nat e = v ^ (2 * nat (e div 2) + (if odd e then 1 else 0))"
    using nat_halves [OF assms] by simp
  also have "\<dots> = (if odd e then v else 1) * (v * v) ^ nat (e div 2)"
    by (simp add: power_add power_mult power2_eq_square)
  finally show ?thesis .
qed

text \<open>Square-and-multiply computes the power: the loop invariant of \<open>pow_loop\<close>.\<close>

lemma pow_loop_power: "0 \<le> e \<Longrightarrow> pow_loop r v e = r * v ^ nat e"
proof (induction r v e rule: pow_loop.induct)
  case (1 result v exp)
  show ?case
  proof (cases "exp = 0")
    case True
    then show ?thesis by (subst pow_loop.simps) (simp add: integer_bool_def)
  next
    case False
    with "1.prems" have pos: "0 < exp" by simp
    then have half: "0 \<le> integer_shr exp 1" "integer_shr exp 1 = exp div 2"
      using shr_one_nonneg [of exp] by simp_all
    have ib: "integer_bool exp" using False by (simp add: integer_bool_def)
    have "pow_loop result v exp =
        pow_loop (if integer_bool (integer_and exp 1) then result * v else result)
             (v * v) (integer_shr exp 1)"
      using ib by (subst pow_loop.simps) simp
    also have "\<dots> = (if odd exp then result * v else result) * (v * v) ^ nat (exp div 2)"
      using "1.IH" [OF ib half(1)] by (simp only: half(2) bit0_and_one)
    also have "\<dots> = result * v ^ nat exp"
      by (simp add: power_halves [OF pos])
    finally show ?thesis .
  qed
qed

lemma pow_power: "0 \<le> e \<Longrightarrow> pow v e = v ^ nat e"
  by (simp add: pow_def pow_loop_power)

lemma shr_Suc_0_nonneg: "0 \<le> e \<Longrightarrow> integer_shr e (Suc 0) = e div 2"
  using shr_one_nonneg [of e] by simp

subsection \<open>The truncated remainder is compatible with products\<close>

lemma integer_mod_trunc_rem: "m \<noteq> 0 \<Longrightarrow> integer_mod x m = Inr (trunc_rem x m)"
  by (simp add: integer_mod_def trunc_rem_def)

lemma mod_abs_nonneg: "0 \<le> \<bar>x\<bar> mod \<bar>m\<bar>" for x m :: int
  by (cases "m = 0") simp_all

lemma abs_trunc_rem: "\<bar>trunc_rem x m\<bar> = \<bar>x\<bar> mod \<bar>m\<bar>"
  using mod_abs_nonneg [of x m] by (cases "x = 0") (simp_all add: trunc_rem_def abs_mult)

lemma sgn_trunc_rem: "sgn (trunc_rem x m) = (if \<bar>x\<bar> mod \<bar>m\<bar> = 0 then 0 else sgn x)"
proof (cases "m = 0")
  case True
  then show ?thesis by (simp add: trunc_rem_def sgn_mult)
next
  case False
  then have "0 \<le> \<bar>x\<bar> mod \<bar>m\<bar>" by simp
  then show ?thesis
    by (cases "\<bar>x\<bar> mod \<bar>m\<bar> = 0") (simp_all add: trunc_rem_def sgn_mult)
qed

lemma trunc_rem_mult_left: "trunc_rem (trunc_rem x m * y) m = trunc_rem (x * y) m"
proof (cases "\<bar>x\<bar> mod \<bar>m\<bar> = 0")
  case True
  then have "trunc_rem x m = 0" by (simp add: trunc_rem_def)
  then have "trunc_rem (trunc_rem x m * y) m = 0"
    by (simp add: trunc_rem_def [of 0])
  moreover from True have "(\<bar>x\<bar> * \<bar>y\<bar>) mod \<bar>m\<bar> = 0"
    by (simp add: mod_eq_0_iff_dvd)
  then have "trunc_rem (x * y) m = 0"
    by (simp add: trunc_rem_def abs_mult)
  ultimately show ?thesis by simp
next
  case False
  have "(\<bar>x\<bar> mod \<bar>m\<bar> * \<bar>y\<bar>) mod \<bar>m\<bar> = (\<bar>x\<bar> * \<bar>y\<bar>) mod \<bar>m\<bar>"
    by (simp add: mod_mult_left_eq)
  moreover have "sgn (trunc_rem x m * y) = sgn (x * y)"
    using False by (simp add: sgn_mult sgn_trunc_rem)
  ultimately show ?thesis
    unfolding trunc_rem_def [of "trunc_rem x m * y"] trunc_rem_def [of "x * y"]
    by (simp add: abs_mult abs_trunc_rem)
qed

lemma trunc_rem_mult_right: "trunc_rem (x * trunc_rem y m) m = trunc_rem (x * y) m"
  using trunc_rem_mult_left [of y m x] by (simp add: mult.commute)

lemma trunc_rem_power: "trunc_rem (trunc_rem y m ^ Suc k) m = trunc_rem (y ^ Suc k) m"
proof (induction k)
  case 0
  show ?case using trunc_rem_mult_left [of y m 1] by simp
next
  case (Suc k)
  have "trunc_rem (trunc_rem y m ^ Suc (Suc k)) m
      = trunc_rem (trunc_rem y m * trunc_rem y m ^ Suc k) m"
    by simp
  also have "\<dots> = trunc_rem (y * trunc_rem y m ^ Suc k) m"
    by (rule trunc_rem_mult_left)
  also have "\<dots> = trunc_rem (y * trunc_rem (trunc_rem y m ^ Suc k) m) m"
    by (rule trunc_rem_mult_right [symmetric])
  also have "\<dots> = trunc_rem (y * trunc_rem (y ^ Suc k) m) m"
    by (simp only: Suc.IH)
  also have "\<dots> = trunc_rem (y * y ^ Suc k) m"
    by (rule trunc_rem_mult_right)
  finally show ?case by simp
qed

subsection \<open>The loop of the three-argument exponentiation\<close>

lemma pow_mod_loop_zero: "pow_mod_loop r b 0 m = Inr r"
  by (subst pow_mod_loop.simps) (simp add: integer_bool_def)

lemma pow_mod_loop_step:
  assumes "m \<noteq> 0" and "0 < e"
  shows "pow_mod_loop r b e m =
    pow_mod_loop (if odd e then trunc_rem (r * b) m else r) (trunc_rem (b * b) m) (e div 2) m"
  using assms
  by (subst pow_mod_loop.simps)
    (simp add: integer_bool_def [of e] bit0_and_one integer_mod_trunc_rem shr_Suc_0_nonneg)

text \<open>
  With a positive exponent every pass reduces, so the loop returns the truncated remainder
  of \<open>r * b ^ e\<close>. Induction on the exponent, which halves in each pass.
\<close>

lemma pow_mod_loop_power:
  "m \<noteq> 0 \<Longrightarrow> 0 < e \<Longrightarrow> pow_mod_loop r b e m = Inr (trunc_rem (r * b ^ nat e) m)"
proof (induction "nat e" arbitrary: r b e rule: less_induct)
  case less
  note step = pow_mod_loop_step [OF less.prems, of r b]
  show ?case
  proof (cases "e = 1")
    case True
    then show ?thesis
      using step by (simp add: pow_mod_loop_zero)
  next
    case False
    with less.prems have half: "0 < e div 2" "nat (e div 2) < nat e"
      by simp_all
    have "pow_mod_loop r b e m = Inr (trunc_rem
        ((if odd e then trunc_rem (r * b) m else r) * trunc_rem (b * b) m ^ nat (e div 2)) m)"
      using less.hyps [OF half(2) less.prems(1) half(1)] step by simp
    also have "trunc_rem
        ((if odd e then trunc_rem (r * b) m else r) * trunc_rem (b * b) m ^ nat (e div 2)) m
      = trunc_rem ((if odd e then r * b else r) * trunc_rem (b * b) m ^ nat (e div 2)) m"
      by (simp add: trunc_rem_mult_left)
    also have "\<dots> = trunc_rem ((if odd e then r * b else r)
        * trunc_rem (trunc_rem (b * b) m ^ nat (e div 2)) m) m"
      by (simp only: trunc_rem_mult_right)
    also have "trunc_rem (trunc_rem (b * b) m ^ nat (e div 2)) m
      = trunc_rem ((b * b) ^ nat (e div 2)) m"
    proof -
      from half(1) obtain k where "nat (e div 2) = Suc k"
        by (cases "nat (e div 2)") simp_all
      then show ?thesis by (simp only: trunc_rem_power)
    qed
    also have "trunc_rem ((if odd e then r * b else r) * trunc_rem ((b * b) ^ nat (e div 2)) m) m
      = trunc_rem ((if odd e then r * b else r) * (b * b) ^ nat (e div 2)) m"
      by (simp only: trunc_rem_mult_right)
    also have "(if odd e then r * b else r) * (b * b) ^ nat (e div 2) = r * b ^ nat e"
      using less.prems(2) by (simp add: power_halves)
    finally show ?thesis .
  qed
qed

text \<open>All four exits of \<open>pow_mod\<close>.\<close>

lemma pow_mod_eval:
  "pow_mod b e m =
     (if m = 0 then Inl DomainError
      else if e < 0 then Inr 0
      else if e = 0 then Inr 1
      else Inr (trunc_rem (b ^ nat e) m))"
  by (simp add: pow_mod_def integer_bool_def pow_mod_loop_zero pow_mod_loop_power)

lemma pow_mod_DomainError: "pow_mod b e m = Inl DomainError \<longleftrightarrow> m = 0"
  by (simp add: pow_mod_eval)

lemma pow_mod_reduced:
  "m \<noteq> 0 \<Longrightarrow> 0 \<le> e \<Longrightarrow> e \<noteq> 0 \<or> \<bar>m\<bar> \<noteq> 1 \<Longrightarrow> pow_mod b e m = integer_mod (b ^ nat e) m"
  by (auto simp add: pow_mod_eval integer_mod_trunc_rem trunc_rem_def)

section \<open>Modular exponentiation\<close>

text \<open>
  Claim C5. The claim is that \<open>pow_mod\<close> fails with \<open>DomainError\<close> exactly when the
  modulus is zero and otherwise, for a non-negative exponent, returns the power reduced
  modulo the modulus. The first half is \<open>pow_mod_DomainError\<close>, and for a positive exponent
  or a modulus other than 1 and -1 the second half is \<open>pow_mod_reduced\<close>. With exponent 0
  the loop body never runs and the initial \<^verbatim>\<open>result = one\<close> is returned unreduced:
  \<open>pow(5, 0, 1)\<close> is 1, while \<open>5 ^ 0\<close> reduced modulo 1 is 0.
\<close>

theorem pow_mod_exponent_zero_modulus_one:
  "pow_mod 5 0 1 = Inr 1 \<and> integer_mod (5 ^ 0) 1 = Inr 0"
  by (simp add: pow_mod_def integer_bool_def integer_mod_def pow_mod_loop.simps)

section \<open>Exponentiation with a negative exponent\<close>

text \<open>
  Claim C6. For every base and every negative exponent the two-argument \<open>pow\<close> returns 0,
  and the three-argument \<open>pow_mod\<close> returns 0 as well whenever the modulus is not zero:
  the early return \<^verbatim>\<open>if (exp < 0) return 0\<close> of both functions, not an inverse.
\<close>

theorem pow_negative_exponent:
  "e < 0 \<Longrightarrow> pow b e = 0 \<and> (m \<noteq> 0 \<longrightarrow> pow_mod b e m = Inr 0)"
  by (simp add: pow_def pow_mod_def integer_bool_def)

theorem pow_negative_exponent_witness:
  "pow 5 (- 3) = 0 \<and> pow_mod 5 (- 3) 7 = Inr 0"
  using pow_negative_exponent [of "- 3" 5 7] by simp

section \<open>Construction of field elements\<close>

lemma FieldElement_valid:
  "FieldElement n p = Inr a \<Longrightarrow> num a = n \<and> prime a = p \<and> 0 \<le> n \<and> n < p"
  by (auto simp: FieldElement_def split: if_splits)

text \<open>
  Claim C8. The constructor \<open>FieldElement n p\<close> fails with \<open>OutOfRange\<close> exactly when
  \<open>n < 0\<close> or \<open>n \<ge> p\<close>, it fails in no other way, and otherwise it succeeds and stores
  \<open>n\<close> and \<open>p\<close> unchanged.
\<close>

theorem FieldElement_range:
  "(FieldElement n p = Inl OutOfRange \<longleftrightarrow> n < 0 \<or> p \<le> n) \<and>
   (\<forall>e. FieldElement n p = Inl e \<longrightarrow> e = OutOfRange) \<and>
   (\<not> (n < 0 \<or> p \<le> n) \<longrightarrow> FieldElement n p = Inr \<lparr>num = n, prime = p\<rparr>)"
  by (auto simp: FieldElement_def)

theorem FieldElement_range_witness:
  "FieldElement 3 7 = Inr \<lparr>num = 3, prime = 7\<rparr> \<and> FieldElement 7 7 = Inl OutOfRange
   \<and> FieldElement (- 1) 7 = Inl OutOfRange"
  using FieldElement_range [of 3 7] FieldElement_range [of 7 7] FieldElement_range [of "- 1" 7]
  by simp

section \<open>Operands of different fields\<close>

text \<open>
  Claim C9. Each of the four binary operators on two field elements (\<open>+\<close>, \<open>-\<close>, \<open>*\<close>,
  \<open>/\<close>) fails with \<open>IncompatibleField\<close> when the stored primes of its operands differ.
  The witness is the sum of \<open>FieldElement(1, 7)\<close> and \<open>FieldElement(1, 11)\<close>.
\<close>

theorem incompatible_field:
  "prime a \<noteq> prime b \<Longrightarrow>
     operator_plus a b = Inl IncompatibleField \<and> operator_minus a b = Inl IncompatibleField \<and>
     operator_times a b = Inl IncompatibleField \<and> operator_div a b = Inl IncompatibleField"
  by (simp add: operator_plus_def operator_minus_def operator_times_def operator_div_def)

theorem incompatible_field_witness:
  "FieldElement 1 7 = Inr \<lparr>num = 1, prime = 7\<rparr> \<and>
   FieldElement 1 11 = Inr \<lparr>num = 1, prime = 11\<rparr> \<and>
   operator_plus \<lparr>num = 1, prime = 7\<rparr> \<lparr>num = 1, prime = 11\<rparr> = Inl IncompatibleField"
  using incompatible_field [of "\<lparr>num = 1, prime = 7\<rparr>" "\<lparr>num = 1, prime = 11\<rparr>"]
  by (simp add: FieldElement_def)

section \<open>Equality of field elements\<close>

text \<open>
  Claim C10. \<^verbatim>\<open>operator==\<close> on two field elements holds exactly when their values are
  equal; replacing the stored primes by any others does not change its result.
\<close>

theorem operator_eq_values:
  "(operator_eq lhs rhs \<longleftrightarrow> num lhs = num rhs) \<and>
   operator_eq (lhs\<lparr>prime := p\<rparr>) (rhs\<lparr>prime := q\<rparr>) = operator_eq lhs rhs"
  by (simp add: operator_eq_def)

section \<open>The iterator constructor and the digit fold\<close>

lemma integer_iter_small_base: "base < 2 \<Longrightarrow> integer_iter ds base = Inl DomainError"
  by (simp add: integer_iter_def)

text \<open>
  When the base is a power of two and every digit is below it, the bits of the digit and
  those of \<open>value * base\<close> do not overlap, and the bitwise or is the sum.
\<close>

lemma or_digit_power_of_two:
  assumes "0 \<le> d" and "d < 2 ^ k"
  shows "integer_or (v * 2 ^ k) d = v * 2 ^ k + d"
proof -
  have "take_bit k d = d"
    using assms by (simp add: take_bit_int_eq_self)
  then have "integer_or (v * 2 ^ k) d = concat_bit k d v"
    by (simp add: integer_or_def concat_bit_def push_bit_eq_mult or.commute)
  also have "\<dots> = v * 2 ^ k + d"
    using \<open>take_bit k d = d\<close> by (simp add: concat_bit_eq push_bit_eq_mult)
  finally show ?thesis .
qed

lemma integer_iter_loop_power_of_two:
  "\<forall>d \<in> set ds. 0 \<le> d \<and> d < 2 ^ k \<Longrightarrow>
     integer_iter_loop v ds (2 ^ k) = spec_digit_fold v ds (2 ^ k)"
  by (induction ds arbitrary: v) (simp_all add: or_digit_power_of_two)

lemma integer_iter_power_of_two:
  assumes k: "0 < k" and ds: "\<forall>d \<in> set ds. 0 \<le> d \<and> d < 2 ^ k"
  shows "integer_iter ds (2 ^ k) = Inr (spec_digit_fold 0 ds (2 ^ k))"
proof -
  have "(2::int) ^ 1 \<le> 2 ^ k"
    using k by (intro power_increasing) simp_all
  then have "\<not> (2::int) ^ k < 2" by simp
  then show ?thesis
    using integer_iter_loop_power_of_two [OF ds] by (simp add: integer_iter_def)
qed

text \<open>
  Claim C3. The claim is that the iterator constructor fails with \<open>DomainError\<close> for a
  base below 2 and otherwise, for every base from 2 on and digits below the base, returns
  the fold of \<open>value = value * base + digit\<close>. The failure is \<open>integer_iter_small_base\<close>,
  and for a base that is a power of two the fold is \<open>integer_iter_power_of_two\<close>. The
  loop combines with \<^verbatim>\<open>|\<close>, not with \<^verbatim>\<open>+\<close>: in base 10 the digits 1, 2 give
  \<open>10 OR 2 = 10\<close>, and the fold gives 12.
\<close>

theorem integer_iter_base_ten:
  "integer_iter [1, 2] 10 = Inr 10 \<and> spec_digit_fold 0 [1, 2] 10 = 12"
  by (simp add: integer_iter_def integer_or_def)

section \<open>Arithmetic of field elements\<close>

lemma FieldElement_mod:
  "0 < p \<Longrightarrow> FieldElement (x mod p) p = Inr \<lparr>num = x mod p, prime = p\<rparr>"
  by (simp add: FieldElement_def not_le not_less)

lemma operator_plus_eval:
  assumes a: "FieldElement va p = Inr a" and b: "FieldElement vb p = Inr b"
  shows "operator_plus a b = Inr \<lparr>num = (va + vb) mod p, prime = p\<rparr>"
proof -
  from FieldElement_valid [OF a] FieldElement_valid [OF b]
  have f: "num a = va" "prime a = p" "0 \<le> va" "va < p" "num b = vb" "prime b = p" "0 \<le> vb"
    by simp_all
  then have "integer_mod (va + vb) p = Inr ((va + vb) mod p)"
    by (simp add: integer_mod_nonneg)
  with f show ?thesis
    by (simp add: operator_plus_def FieldElement_mod)
qed

lemma operator_times_eval:
  assumes a: "FieldElement va p = Inr a" and b: "FieldElement vb p = Inr b"
  shows "operator_times a b = Inr \<lparr>num = (va * vb) mod p, prime = p\<rparr>"
proof -
  from FieldElement_valid [OF a] FieldElement_valid [OF b]
  have f: "num a = va" "prime a = p" "0 \<le> va" "va < p" "num b = vb" "prime b = p" "0 \<le> vb"
    by simp_all
  then have "integer_mod (va * vb) p = Inr ((va * vb) mod p)"
    by (simp add: integer_mod_nonneg)
  with f show ?thesis
    by (simp add: operator_times_def FieldElement_mod)
qed

text \<open>
  A negative difference keeps its sign through \<open>integer_mod\<close>, and the constructor
  rejects it.
\<close>

lemma operator_minus_eval:
  assumes a: "FieldElement va p = Inr a" and b: "FieldElement vb p = Inr b"
  shows "operator_minus a b =
    (if va < vb then Inl OutOfRange else Inr \<lparr>num = va - vb, prime = p\<rparr>)"
proof -
  from FieldElement_valid [OF a] FieldElement_valid [OF b]
  have f: "num a = va" "prime a = p" "0 \<le> va" "va < p" "num b = vb" "prime b = p" "0 \<le> vb"
    "vb < p"
    by simp_all
  show ?thesis
  proof (cases "va < vb")
    case True
    with f have "\<bar>va - vb\<bar> = vb - va" "0 < vb - va" "vb - va < p" "sgn (va - vb) = - 1"
      by simp_all
    then have "integer_mod (va - vb) p = Inr (- (vb - va))"
      using f by (simp add: integer_mod_def)
    with True f show ?thesis
      by (simp add: operator_minus_def FieldElement_def)
  next
    case False
    with f have "0 \<le> va - vb" "va - vb < p" by simp_all
    then have "integer_mod (va - vb) p = Inr (va - vb)"
      using f by (simp add: integer_mod_nonneg)
    with False f show ?thesis
      by (simp add: operator_minus_def FieldElement_def)
  qed
qed

lemma operator_div_eval:
  assumes a: "FieldElement va p = Inr a" and b: "FieldElement vb p = Inr b"
  shows "operator_div a b = Inr \<lparr>num = (va * (vb ^ nat (p - 2) mod p)) mod p, prime = p\<rparr>"
proof -
  from FieldElement_valid [OF a] have fa: "num a = va" "prime a = p" "0 \<le> va" "va < p"
    by simp_all
  from FieldElement_valid [OF b] have fb: "num b = vb" "prime b = p" "0 \<le> vb" "vb < p"
    by simp_all
  have p: "0 < p" using fa by simp
  show ?thesis
  proof (cases "p - 2 < 0")
    case True
    with p have "p = 1" by simp
    with fa fb have "va = 0" "vb = 0" by simp_all
    with \<open>p = 1\<close> fa fb show ?thesis
      by (simp add: operator_div_def pow_def integer_mod_def FieldElement_def)
  next
    case False
    then have e: "0 \<le> p - 2" by simp
    have inv: "integer_mod (pow vb (p - 2)) p = Inr (vb ^ nat (p - 2) mod p)"
      using fb p by (simp add: pow_power [OF e] integer_mod_nonneg)
    have "0 \<le> vb ^ nat (p - 2) mod p" using p by simp
    then have prod: "integer_mod (va * (vb ^ nat (p - 2) mod p)) p
        = Inr ((va * (vb ^ nat (p - 2) mod p)) mod p)"
      using fa p by (simp add: integer_mod_nonneg)
    have ctor: "FieldElement ((va * (vb ^ nat (p - 2) mod p)) mod p) p
        = Inr \<lparr>num = (va * (vb ^ nat (p - 2) mod p)) mod p, prime = p\<rparr>"
      using p by (rule FieldElement_mod)
    show ?thesis
      by (simp add: operator_div_def fa fb inv prod ctor)
  qed
qed

text \<open>
  Claim C1. The claim is that for elements \<open>a\<close>, \<open>b\<close> of one field each of \<open>a + b\<close>,
  \<open>a - b\<close>, \<open>a * b\<close> and \<open>a / b\<close> succeeds with a value in \<open>[0, p)\<close>. Sum, product and
  quotient do (\<open>operator_plus_eval\<close>, \<open>operator_times_eval\<close>, \<open>operator_div_eval\<close>), and
  so does the difference when the value of \<open>a\<close> is not below that of \<open>b\<close>
  (\<open>operator_minus_eval\<close>). Otherwise the remainder of the negative difference is
  negative and the constructor throws: \<open>FieldElement(1, 7) - FieldElement(3, 7)\<close> fails
  with \<open>OutOfRange\<close>.
\<close>

theorem operator_minus_out_of_range:
  "FieldElement 1 7 = Inr \<lparr>num = 1, prime = 7\<rparr> \<and>
   FieldElement 3 7 = Inr \<lparr>num = 3, prime = 7\<rparr> \<and>
   operator_minus \<lparr>num = 1, prime = 7\<rparr> \<lparr>num = 3, prime = 7\<rparr> = Inl OutOfRange"
  by (simp add: FieldElement_def operator_minus_def integer_mod_def)

section \<open>Division of field elements\<close>

text \<open>
  Claim C4. For field elements \<open>a\<close> and \<open>b\<close> constructed over the same prime \<open>p\<close>, the
  quotient \<open>a / b\<close> succeeds, keeps the prime, and has the value
  \<open>(a.value * (b.value ^ (p - 2) mod p)) mod p\<close>. (The only field with \<open>p < 2\<close> is the one
  with \<open>p = 1\<close>, where every remainder is 0 whatever the exponent.)
\<close>

theorem operator_div_value:
  assumes "FieldElement va p = Inr a" and "FieldElement vb p = Inr b"
  shows "operator_div a b = Inr \<lparr>num = (va * (vb ^ nat (p - 2) mod p)) mod p, prime = p\<rparr>"
  using assms by (rule operator_div_eval)

theorem operator_div_value_witness:
  "operator_div \<lparr>num = 7, prime = 13\<rparr> \<lparr>num = 12, prime = 13\<rparr> = Inr \<lparr>num = 6, prime = 13\<rparr>"
  using operator_div_value [of 7 13 "\<lparr>num = 7, prime = 13\<rparr>" 12 "\<lparr>num = 12, prime = 13\<rparr>"]
  by (simp add: FieldElement_def)

text \<open>
  Claim C2, as stated: dividing by a field element whose value is zero raises a failure.
  It does not: \<open>FieldElement(3, 7) / FieldElement(0, 7)\<close> returns \<open>FieldElement(0, 7)\<close>.
\<close>

theorem zero_divisor_returns:
  "FieldElement 3 7 = Inr \<lparr>num = 3, prime = 7\<rparr> \<and>
   FieldElement 0 7 = Inr \<lparr>num = 0, prime = 7\<rparr> \<and>
   operator_div \<lparr>num = 3, prime = 7\<rparr> \<lparr>num = 0, prime = 7\<rparr> = Inr \<lparr>num = 0, prime = 7\<rparr>"
  using operator_div_eval [of 3 7 "\<lparr>num = 3, prime = 7\<rparr>" 0 "\<lparr>num = 0, prime = 7\<rparr>"]
  by (simp add: FieldElement_def)

text \<open>
  Claim C2, amended. Dividing a field element \<open>a\<close> by a field element of the same prime
  \<open>p\<close> whose value is zero raises no failure: it returns the element of that field with
  value 0, and with the value of \<open>a\<close> when \<open>p = 2\<close> (there the exponent \<open>p - 2\<close> is 0 and
  the power is 1).
\<close>

theorem operator_div_by_zero:
  assumes "FieldElement va p = Inr a" and "FieldElement 0 p = Inr b"
  shows "operator_div a b = Inr \<lparr>num = (if p = 2 then va else 0), prime = p\<rparr>"
proof -
  from FieldElement_valid [OF assms(1)] have fa: "0 \<le> va" "va < p"
    by simp_all
  have "(va * ((0::int) ^ nat (p - 2) mod p)) mod p = (if p = 2 then va else 0)"
  proof (cases "p = 2")
    case True
    with fa show ?thesis by simp
  next
    case False
    show ?thesis
    proof (cases "p = 1")
      case True
      then show ?thesis by simp
    next
      case False
      with \<open>p \<noteq> 2\<close> fa have "0 < nat (p - 2)" by simp
      then show ?thesis using \<open>p \<noteq> 2\<close> by (simp add: zero_power)
    qed
  qed
  with operator_div_eval [OF assms] show ?thesis by simp
qed

theorem operator_div_by_zero_witness:
  "operator_div \<lparr>num = 5, prime = 11\<rparr> \<lparr>num = 0, prime = 11\<rparr> = Inr \<lparr>num = 0, prime = 11\<rparr>
   \<and> operator_div \<lparr>num = 1, prime = 2\<rparr> \<lparr>num = 0, prime = 2\<rparr> = Inr \<lparr>num = 1, prime = 2\<rparr>"
  using operator_div_by_zero [of 5 11 "\<lparr>num = 5, prime = 11\<rparr>" "\<lparr>num = 0, prime = 11\<rparr>"]
    operator_div_by_zero [of 1 2 "\<lparr>num = 1, prime = 2\<rparr>" "\<lparr>num = 0, prime = 2\<rparr>"]
  by (simp add: FieldElement_def)

section \<open>The Fermat round trip\<close>

text \<open>
  Claim C7. For every prime \<open>p\<close> and every field element \<open>a\<close> over \<open>p\<close> with a value
  other than zero, \<open>a.power(p - 1)\<close> succeeds and compares equal (\<^verbatim>\<open>operator==\<close>) to
  \<open>FieldElement(1, p)\<close>. The exponent is reduced modulo \<open>p - 1\<close> to 0 first, so the power
  is the empty product.
\<close>

theorem fermat_round_trip:
  assumes "is_prime p" and "FieldElement v p = Inr a" and "v \<noteq> 0"
  shows "power_fe a (p - 1) = FieldElement 1 p \<and>
    (\<exists>r one. power_fe a (p - 1) = Inr r \<and> FieldElement 1 p = Inr one \<and> operator_eq r one)"
proof -
  from assms(1) have p: "1 < p" by (simp add: is_prime_def)
  from FieldElement_valid [OF assms(2)] have fa: "num a = v" "prime a = p"
    by simp_all
  have n: "integer_mod (p - 1) (p - 1) = Inr 0"
    using p by (simp add: integer_mod_def)
  have one: "integer_mod (pow v 0) p = Inr 1"
    using p by (simp add: pow_power integer_mod_nonneg)
  have "power_fe a (p - 1) = FieldElement 1 p"
    by (simp add: power_fe_def fa n one)
  moreover have "FieldElement 1 p = Inr \<lparr>num = 1, prime = p\<rparr>"
    using p by (simp add: FieldElement_def)
  ultimately show ?thesis
    by (simp add: operator_eq_def)
qed

theorem fermat_round_trip_witness:
  "is_prime 7 \<and> power_fe \<lparr>num = 3, prime = 7\<rparr> 6 = Inr \<lparr>num = 1, prime = 7\<rparr>
   \<and> FieldElement 1 7 = Inr \<lparr>num = 1, prime = 7\<rparr>"
proof -
  have pr: "is_prime 7" by code_simp
  have fe: "FieldElement 3 7 = Inr \<lparr>num = 3, prime = 7\<rparr>" by (simp add: FieldElement_def)
  from fermat_round_trip [OF pr fe] pr show ?thesis
    by (simp add: FieldElement_def)
qed

end
